theory Spec2Isabelle
  imports Main
begin

section \<open>Strings\<close>

text \<open>
  A Python \<open>str\<close> is a sequence of Unicode code points and \<open>len\<close> counts code
  points, so a string is a list of code points here. The sentence terminators of the
  segmenter include two characters outside ASCII.
\<close>

type_synonym pystr = "nat list"

definition ascii :: "string \<Rightarrow> pystr" where
  "ascii s = map of_char s"

text \<open>The characters \<open>str.isspace\<close> accepts, which \<open>str.strip()\<close> removes.\<close>

definition is_space :: "nat \<Rightarrow> bool" where
  "is_space c \<longleftrightarrow>
     (9 \<le> c \<and> c \<le> 13) \<or> (28 \<le> c \<and> c \<le> 32) \<or> c = 133 \<or> c = 160 \<or> c = 5760
     \<or> (8192 \<le> c \<and> c \<le> 8202) \<or> c = 8232 \<or> c = 8233 \<or> c = 8239 \<or> c = 8287
     \<or> c = 12288"

definition lstrip :: "pystr \<Rightarrow> pystr" where
  "lstrip s = dropWhile is_space s"

definition rstrip :: "pystr \<Rightarrow> pystr" where
  "rstrip s = rev (dropWhile is_space (rev s))"

definition strip :: "pystr \<Rightarrow> pystr" where
  "strip s = rstrip (lstrip s)"

section \<open>Sentence segmentation (main.py, extract_complete_sentences)\<close>

text \<open>
  \<open>arabic_endings = ['\<dots>', '\<dots>', '!', '.', '?']\<close>: U+06D4 (Arabic full stop),
  U+061F (Arabic question mark), and the ASCII marks.
\<close>

definition arabic_endings :: "nat list" where
  "arabic_endings = [1748, 1567, 33, 46, 63]"

text \<open>
  The \<open>for char in text\<close> loop, with its two loop variables \<open>sentences\<close> and
  \<open>current_sentence\<close> as accumulators; the result is their value after the loop.
\<close>

fun scan_chars :: "pystr \<Rightarrow> pystr list \<Rightarrow> pystr \<Rightarrow> pystr list \<times> pystr" where
  "scan_chars [] sentences current_sentence = (sentences, current_sentence)"
| "scan_chars (c # cs) sentences current_sentence =
     (let current_sentence = current_sentence @ [c] in
      if c \<in> set arabic_endings then
        (let sentence = strip current_sentence in
         scan_chars cs (if length sentence > 5 then sentences @ [sentence] else sentences) [])
      else scan_chars cs sentences current_sentence)"

definition extract_complete_sentences :: "pystr \<Rightarrow> pystr list" where
  "extract_complete_sentences text =
     (if text = [] \<or> length (strip text) < 3 then []
      else
        (case scan_chars text [] [] of (sentences, current_sentence) \<Rightarrow>
           if length (strip current_sentence) > 10
           then sentences @ [strip current_sentence]
           else sentences))"

section \<open>Collaborators\<close>

text \<open>
  The datastore, the completion model, the room and the webhook are outside the
  program. Their part of the state is held in one record, \<open>world\<close>, and what they answer
  is given by an environment of oracles, each indexed by the number of calls made so
  far, so that the same call may succeed once and fail the next time. Every
  \<open>except Exception\<close> of the source is a branch that the oracles can reach.
  The timestamps (\<open>datetime.utcnow()\<close>) written to rows and messages are left out.
\<close>

datatype error = CompletionError | DatastoreError | PublishError

datatype role = System | User

record chat_message =
  role :: role
  content :: pystr

type_synonym chat_context = "chat_message list"

text \<open>A chunk of the completion stream: its \<open>delta.content\<close>, when there is one.\<close>

type_synonym chunk = "pystr option"

datatype session_status = Active | Completed

record session_row =
  sess_id :: pystr
  sess_room_id :: int
  sess_mosque_id :: int
  status :: session_status
  logging_enabled :: bool
  transcript_count :: int

record transcript_row =
  tr_room_id :: int
  tr_session_id :: pystr
  transcription_segment :: pystr
  translation_segment :: pystr

text \<open>One entry per \<open>.execute()\<close> on the datastore client.\<close>

datatype db_call =
    SelectActiveSession int
  | InsertSession int int
  | UpdateSessionCompleted pystr
  | InsertTranscript int pystr pystr pystr
  | SelectTranscriptCount pystr
  | UpdateTranscriptCount pystr int

datatype notification =
    TranslationMessage int int pystr pystr
  | ParticipantUpdate int int int

record transcription_segment_t =
  seg_id :: pystr
  seg_text :: pystr
  start_time :: int
  end_time :: int
  language :: pystr
  final :: bool

record transcription =
  participant_identity :: pystr
  track_sid :: pystr
  segments :: "transcription_segment_t list"

record session_info =
  si_id :: pystr
  si_room_id :: int
  si_mosque_id :: int

record env =
  llm_chat :: "nat \<Rightarrow> chat_context \<Rightarrow> error + chunk list"
  publish_fault :: "nat \<Rightarrow> bool"
  db_fault :: "nat \<Rightarrow> bool"
  empty_answer :: "nat \<Rightarrow> bool"
  fresh_session_id :: "nat \<Rightarrow> pystr"
  shortuuid :: "nat \<Rightarrow> pystr"

record world =
  room_sessions :: "session_row list"
  transcripts :: "transcript_row list"
  db_log :: "db_call list"
  active_sessions :: "pystr \<rightharpoonup> session_info"
  websocket_logger_url :: "pystr option"
  http_posts :: "notification list"
  published :: "transcription list"
  publish_calls :: nat
  llm_requests :: "chat_context list"

section \<open>SupabaseService (supabase_service.py)\<close>

text \<open>
  \<open>execute\<close> is one round trip to the datastore: the call is logged, and the oracle
  says whether it raises.
\<close>

definition execute :: "env \<Rightarrow> db_call \<Rightarrow> world \<Rightarrow> bool \<times> world" where
  "execute e c w = (db_fault e (length (db_log w)), w\<lparr>db_log := db_log w @ [c]\<rparr>)"

text \<open>
  \<open>result.data\<close> of an insert that did not raise: the rows the datastore stored and
  sends back, which is the new row, or nothing when the oracle says that the
  \<open>n\<close>-th call is answered with no rows. The source tests it (\<open>if result.data:\<close>).
\<close>

definition inserted :: "env \<Rightarrow> nat \<Rightarrow> 'a \<Rightarrow> 'a list" where
  "inserted e n row = (if empty_answer e n then [] else [row])"

definition is_active_for :: "int \<Rightarrow> session_row \<Rightarrow> bool" where
  "is_active_for room_id r \<longleftrightarrow> sess_room_id r = room_id \<and> status r = Active"

definition get_active_session :: "env \<Rightarrow> int \<Rightarrow> world \<Rightarrow> session_row option \<times> world" where
  "get_active_session e room_id w =
     (case execute e (SelectActiveSession room_id) w of
        (True, w1) \<Rightarrow> (None, w1)
      | (False, w1) \<Rightarrow>
          (case filter (is_active_for room_id) (room_sessions w1) of
             [] \<Rightarrow> (None, w1)
           | r # _ \<Rightarrow> (Some r, w1)))"

definition SupabaseService_start_session ::
  "env \<Rightarrow> int \<Rightarrow> int \<Rightarrow> world \<Rightarrow> pystr option \<times> world" where
  "SupabaseService_start_session e room_id mosque_id w =
     (case get_active_session e room_id w of
        (Some active_session, w1) \<Rightarrow> (Some (sess_id active_session), w1)
      | (None, w1) \<Rightarrow>
          (case execute e (InsertSession room_id mosque_id) w1 of
             (True, w2) \<Rightarrow> (None, w2)
           | (False, w2) \<Rightarrow>
               (let session_data = \<lparr>sess_id = fresh_session_id e (length (db_log w1)),
                      sess_room_id = room_id, sess_mosque_id = mosque_id, status = Active,
                      logging_enabled = True, transcript_count = 0\<rparr>;
                    result_data = inserted e (length (db_log w1)) session_data;
                    w3 = w2\<lparr>room_sessions := room_sessions w2 @ result_data\<rparr>
                in case result_data of
                     row # _ \<Rightarrow> (Some (sess_id row), w3)
                   | [] \<Rightarrow> (None, w3))))"

definition mark_completed :: "pystr \<Rightarrow> session_row \<Rightarrow> session_row" where
  "mark_completed sid r = (if sess_id r = sid then r\<lparr>status := Completed\<rparr> else r)"

definition SupabaseService_stop_session :: "env \<Rightarrow> int \<Rightarrow> world \<Rightarrow> bool \<times> world" where
  "SupabaseService_stop_session e room_id w =
     (case get_active_session e room_id w of
        (None, w1) \<Rightarrow> (False, w1)
      | (Some active_session, w1) \<Rightarrow>
          (case execute e (UpdateSessionCompleted (sess_id active_session)) w1 of
             (True, w2) \<Rightarrow> (False, w2)
           | (False, w2) \<Rightarrow>
               (filter (\<lambda>r. sess_id r = sess_id active_session) (room_sessions w2) \<noteq> [],
                w2\<lparr>room_sessions :=
                     map (mark_completed (sess_id active_session)) (room_sessions w2)\<rparr>)))"

definition set_count :: "pystr \<Rightarrow> int \<Rightarrow> session_row \<Rightarrow> session_row" where
  "set_count sid n r = (if sess_id r = sid then r\<lparr>transcript_count := n\<rparr> else r)"

definition update_session_transcript_count :: "env \<Rightarrow> pystr \<Rightarrow> world \<Rightarrow> world" where
  "update_session_transcript_count e session_id w =
     (case execute e (SelectTranscriptCount session_id) w of
        (True, w1) \<Rightarrow> w1
      | (False, w1) \<Rightarrow>
          (case filter (\<lambda>r. sess_id r = session_id) (room_sessions w1) of
             [] \<Rightarrow> w1
           | r # _ \<Rightarrow>
               (let current_count = transcript_count r;
                    new_count = current_count + 1
                in case execute e (UpdateTranscriptCount session_id new_count) w1 of
                     (True, w2) \<Rightarrow> w2
                   | (False, w2) \<Rightarrow>
                       w2\<lparr>room_sessions :=
                            map (set_count session_id new_count) (room_sessions w2)\<rparr>)))"

definition save_transcript ::
  "env \<Rightarrow> int \<Rightarrow> pystr \<Rightarrow> pystr \<Rightarrow> pystr \<Rightarrow> world \<Rightarrow> bool \<times> world" where
  "save_transcript e room_id session_id arabic_text translation w =
     (case execute e (InsertTranscript room_id session_id arabic_text translation) w of
        (True, w1) \<Rightarrow> (False, w1)
      | (False, w1) \<Rightarrow>
          (let transcript_data = \<lparr>tr_room_id = room_id, tr_session_id = session_id,
                 transcription_segment = arabic_text, translation_segment = translation\<rparr>;
               result_data = inserted e (length (db_log w)) transcript_data;
               w2 = w1\<lparr>transcripts := transcripts w1 @ result_data\<rparr>
           in case result_data of
                row # _ \<Rightarrow> (True, update_session_transcript_count e session_id w2)
              | [] \<Rightarrow> (False, w2)))"

text \<open>
  The POST is logged when an endpoint is configured; its status code, a timeout or an
  error change nothing the program keeps.
\<close>

definition send_to_websocket_logger :: "int \<Rightarrow> int \<Rightarrow> pystr \<Rightarrow> pystr \<Rightarrow> world \<Rightarrow> world" where
  "send_to_websocket_logger room_id mosque_id arabic_text translation w =
     (case websocket_logger_url w of
        None \<Rightarrow> w
      | Some url \<Rightarrow>
          w\<lparr>http_posts := http_posts w
                 @ [TranslationMessage room_id mosque_id arabic_text translation]\<rparr>)"

definition is_session_logging_enabled :: "env \<Rightarrow> int \<Rightarrow> world \<Rightarrow> bool \<times> world" where
  "is_session_logging_enabled e room_id w =
     (case get_active_session e room_id w of
        (Some active_session, w1) \<Rightarrow> (logging_enabled active_session, w1)
      | (None, w1) \<Rightarrow> (False, w1))"

definition set_session_info :: "pystr \<Rightarrow> session_info \<Rightarrow> world \<Rightarrow> world" where
  "set_session_info livekit_room_name info w =
     w\<lparr>active_sessions := (active_sessions w)(livekit_room_name \<mapsto> info)\<rparr>"

definition remove_session_info :: "pystr \<Rightarrow> world \<Rightarrow> world" where
  "remove_session_info livekit_room_name w =
     (if livekit_room_name \<in> dom (active_sessions w)
      then w\<lparr>active_sessions := (active_sessions w)(livekit_room_name := None)\<rparr>
      else w)"

section \<open>TranslationService (main.py)\<close>

record room =
  room_name :: pystr
  local_participant_identity :: pystr

record track =
  sid :: pystr

record translation_service =
  ts_room :: room
  target_language :: pystr
  source_language :: pystr
  use_context :: bool
  ts_context :: chat_context
  message_count :: int
  max_context_messages :: int
  system_prompt :: pystr

definition add_message :: "role \<Rightarrow> pystr \<Rightarrow> chat_context \<Rightarrow> chat_context" where
  "add_message r c ctx = ctx @ [\<lparr>role = r, content = c\<rparr>]"

definition make_system_prompt :: "pystr \<Rightarrow> pystr \<Rightarrow> pystr" where
  "make_system_prompt source target =
     ascii ''You are a professional simultaneous interpreter for Islamic religious content. ''
     @ ascii ''Translate the provided '' @ source @ ascii '' text to ''
     @ target @ ascii ''. ''
     @ ascii ''Rules: 1) Translate ONLY the most recent sentence. ''
     @ ascii ''2) Be accurate and respectful with religious terminology. ''
     @ ascii ''3) Use natural, spoken language appropriate for live translation. ''
     @ ascii ''4) Return ONLY the translation, no explanations. ''
     @ ascii ''5) Maintain the tone and meaning of the original.''"

text \<open>\<open>TranslationService.__init__\<close>.\<close>

definition TranslationService_init :: "room \<Rightarrow> pystr \<Rightarrow> pystr \<Rightarrow> translation_service" where
  "TranslationService_init rm target source =
     \<lparr>ts_room = rm, target_language = target, source_language = source,
      use_context = True,
      ts_context = add_message System (make_system_prompt source target) [],
      message_count = 0, max_context_messages = 9,
      system_prompt = make_system_prompt source target\<rparr>"

text \<open>
  \<open>_publish_transcription\<close>: the whole body is inside \<open>try\<close>, and a failure of the
  room's publish call is logged and swallowed.
\<close>

definition publish_transcription ::
  "env \<Rightarrow> translation_service \<Rightarrow> pystr \<Rightarrow> track option \<Rightarrow> world \<Rightarrow> world" where
  "publish_transcription e ts text trk w =
     (let segment = \<lparr>seg_id = ascii ''SG_'' @ shortuuid e (publish_calls w), seg_text = text,
            start_time = 0, end_time = 0, language = target_language ts, final = True\<rparr>;
          transcription = \<lparr>participant_identity = local_participant_identity (ts_room ts),
            track_sid = (case trk of Some t \<Rightarrow> sid t | None \<Rightarrow> []),
            segments = [segment]\<rparr>;
          w1 = w\<lparr>publish_calls := publish_calls w + 1\<rparr>
      in if publish_fault e (publish_calls w) then w1
         else w1\<lparr>published := published w1 @ [transcription]\<rparr>)"

text \<open>
  The first part of \<open>translate_text\<close>, up to the completion request: the service after
  the append and the reset check, and the context the request is made against.
\<close>

definition prepare_context ::
  "translation_service \<Rightarrow> pystr \<Rightarrow> translation_service \<times> chat_context" where
  "prepare_context ts text =
     (if use_context ts then
        (let ts1 = ts\<lparr>ts_context := add_message User text (ts_context ts),
                       message_count := message_count ts + 1\<rparr>;
             ts2 = (if message_count ts1 > max_context_messages ts1
                    then ts1\<lparr>ts_context := add_message System (system_prompt ts1) [],
                             message_count := 0\<rparr>
                    else ts1)
         in (ts2, ts_context ts2))
      else
        (ts, add_message User text (add_message System (system_prompt ts) [])))"

definition collect :: "chunk list \<Rightarrow> pystr" where
  "collect chunks = concat (map (\<lambda>c. case c of Some d \<Rightarrow> d | None \<Rightarrow> []) chunks)"

text \<open>
  The body of the \<open>try\<close> block: \<open>Inl\<close> when the completion collaborator raises, at the
  request or while its stream is read. What was assigned before the failure stays.
\<close>

definition translate_text_try ::
  "env \<Rightarrow> translation_service \<Rightarrow> pystr \<Rightarrow> track option \<Rightarrow> world
     \<Rightarrow> (error + pystr) \<times> translation_service \<times> world" where
  "translate_text_try e ts text trk w =
     (case prepare_context ts text of
        (ts1, ctx) \<Rightarrow>
          (let w1 = w\<lparr>llm_requests := llm_requests w @ [ctx]\<rparr> in
           case llm_chat e (length (llm_requests w)) ctx of
             Inl err \<Rightarrow> (Inl err, ts1, w1)
           | Inr chunks \<Rightarrow>
               (let translated_text = strip (collect chunks);
                    w2 = publish_transcription e ts1 translated_text trk w1
                in (Inr translated_text, ts1, w2))))"

definition translate_text ::
  "env \<Rightarrow> translation_service \<Rightarrow> pystr \<Rightarrow> track option \<Rightarrow> world
     \<Rightarrow> (error + pystr) \<times> translation_service \<times> world" where
  "translate_text e ts text trk w =
     (case translate_text_try e ts text trk w of
        (Inr translated_text, ts1, w1) \<Rightarrow> (Inr translated_text, ts1, w1)
      | (Inl err, ts1, w1) \<Rightarrow> (Inr text, ts1, w1))"

text \<open>Successive calls on one service, each with its text and track.\<close>

fun translate_all ::
  "env \<Rightarrow> translation_service \<Rightarrow> (pystr \<times> track option) list \<Rightarrow> world
     \<Rightarrow> translation_service \<times> world" where
  "translate_all e ts [] w = (ts, w)"
| "translate_all e ts ((text, trk) # rest) w =
     (case translate_text e ts text trk w of (_, ts1, w1) \<Rightarrow> translate_all e ts1 rest w1)"

section \<open>RoomSessionManager (main.py)\<close>

record room_data_t =
  rd_id :: int
  rd_mosque_id :: int
  rd_title :: pystr

record room_session_manager =
  mgr_room :: room
  room_data :: "room_data_t option"
  active_session :: "session_info option"
  translation_service :: "translation_service option"
  participant_count :: int

definition RoomSessionManager_start_session ::
  "env \<Rightarrow> room_session_manager \<Rightarrow> world \<Rightarrow> room_session_manager \<times> world" where
  "RoomSessionManager_start_session e m w =
     (case room_data m of
        None \<Rightarrow> (m, w)
      | Some rd \<Rightarrow>
          (case SupabaseService_start_session e (rd_id rd) (rd_mosque_id rd) w of
             (None, w1) \<Rightarrow> (m, w1)
           | (Some session_id, w1) \<Rightarrow>
               if session_id = [] then (m, w1)
               else
                 (let info = \<lparr>si_id = session_id, si_room_id = rd_id rd,
                        si_mosque_id = rd_mosque_id rd\<rparr>
                  in (m\<lparr>active_session := Some info\<rparr>,
                      set_session_info (room_name (mgr_room m)) info w1))))"

text \<open>
  \<open>stop_session\<close> and \<open>handle_transcription\<close> return nothing; the first component
  of the result says whether the call returned (\<open>Inr ()\<close>) or raised.
\<close>

definition RoomSessionManager_stop_session ::
  "env \<Rightarrow> room_session_manager \<Rightarrow> world \<Rightarrow> (error + unit) \<times> room_session_manager \<times> world" where
  "RoomSessionManager_stop_session e m w =
     (case (room_data m, active_session m) of
        (Some rd, Some s) \<Rightarrow>
          (case SupabaseService_stop_session e (rd_id rd) w of
             (_, w1) \<Rightarrow> (Inr (), m, remove_session_info (room_name (mgr_room m)) w1))
      | _ \<Rightarrow> (Inr (), m, w))"

definition handle_transcription ::
  "env \<Rightarrow> room_session_manager \<Rightarrow> pystr \<Rightarrow> track option \<Rightarrow> world
     \<Rightarrow> (error + unit) \<times> room_session_manager \<times> world" where
  "handle_transcription e m text trk w =
     (case (translation_service m, active_session m, room_data m) of
        (Some ts, Some s, Some rd) \<Rightarrow>
          (case is_session_logging_enabled e (rd_id rd) w of
             (False, w1) \<Rightarrow> (Inr (), m, w1)
           | (True, w1) \<Rightarrow>
               (case translate_text e ts text trk w1 of
                  (Inl err, ts1, w2) \<Rightarrow> (Inr (), m\<lparr>translation_service := Some ts1\<rparr>, w2)
                | (Inr translated_text, ts1, w2) \<Rightarrow>
                    (case save_transcript e (rd_id rd) (si_id s) text translated_text w2 of
                       (_, w3) \<Rightarrow>
                         (Inr (), m\<lparr>translation_service := Some ts1\<rparr>,
                          send_to_websocket_logger (rd_id rd) (rd_mosque_id rd)
                            text translated_text w3))))
      | _ \<Rightarrow> (Inr (), m, w))"

text \<open>The user message that a call with the input \<open>x\<close> appends to the context.\<close>

definition user_message :: "pystr \<times> track option \<Rightarrow> chat_message" where
  "user_message x = \<lparr>role = User, content = fst x\<rparr>"

section \<open>Example collaborators and states\<close>

text \<open>
  Concrete collaborators and states at which the theorems below are instantiated:
  a datastore and a completion model that answer, a completion model that always
  raises, a datastore whose \<open>k\<close>-th call raises, a room, and a coordinator after a
  successful \<open>initialize\<close> with its session row in the datastore.
\<close>

definition example_env :: env where
  "example_env =
     \<lparr>llm_chat = (\<lambda>n ctx. Inr [Some (ascii '' Peace be''), None, Some (ascii '' upon you. '')]),
      publish_fault = (\<lambda>n. False),
      db_fault = (\<lambda>n. False),
      empty_answer = (\<lambda>n. False),
      fresh_session_id = (\<lambda>n. ascii ''session-'' @ [48 + n]),
      shortuuid = (\<lambda>n. [97 + n])\<rparr>"

definition failing_llm_env :: env where
  "failing_llm_env = example_env\<lparr>llm_chat := (\<lambda>n ctx. Inl CompletionError)\<rparr>"

definition faulty_db_env :: "nat \<Rightarrow> env" where
  "faulty_db_env k = example_env\<lparr>db_fault := (\<lambda>n. n = k)\<rparr>"

definition example_room :: room where
  "example_room = \<lparr>room_name = ascii ''masjid-1'', local_participant_identity = ascii ''agent''\<rparr>"

definition example_room_data :: room_data_t where
  "example_room_data = \<lparr>rd_id = 1, rd_mosque_id = 7, rd_title = ascii ''Friday''\<rparr>"

definition example_session_row :: "bool \<Rightarrow> session_row" where
  "example_session_row enabled =
     \<lparr>sess_id = ascii ''session-0'', sess_room_id = 1, sess_mosque_id = 7, status = Active,
      logging_enabled = enabled, transcript_count = 0\<rparr>"

definition example_info :: session_info where
  "example_info = \<lparr>si_id = ascii ''session-0'', si_room_id = 1, si_mosque_id = 7\<rparr>"

definition example_service :: translation_service where
  "example_service = TranslationService_init example_room (ascii ''en'') (ascii ''ar'')"

definition example_manager :: room_session_manager where
  "example_manager =
     \<lparr>mgr_room = example_room, room_data = Some example_room_data,
      active_session = Some example_info, translation_service = Some example_service,
      participant_count = 1\<rparr>"

definition empty_world :: world where
  "empty_world =
     \<lparr>room_sessions = [], transcripts = [], db_log = [], active_sessions = Map.empty,
      websocket_logger_url = Some (ascii ''http://logger''), http_posts = [],
      published = [], publish_calls = 0, llm_requests = []\<rparr>"

definition example_world :: "bool \<Rightarrow> world" where
  "example_world enabled =
     empty_world\<lparr>room_sessions := [example_session_row enabled],
                 active_sessions := [ascii ''masjid-1'' \<mapsto> example_info]\<rparr>"

text \<open>
  The coordinator before its first \<open>start_session\<close>, and what two successive
  \<open>start_session\<close> calls make of it and of an empty datastore when the lookup of the
  second call (the third datastore call) raises.
\<close>

definition fresh_manager :: room_session_manager where
  "fresh_manager = example_manager\<lparr>active_session := None\<rparr>"

definition started_twice :: "room_session_manager \<times> world" where
  "started_twice =
     (case RoomSessionManager_start_session (faulty_db_env 2) fresh_manager empty_world of
        (m1, w1) \<Rightarrow> RoomSessionManager_start_session (faulty_db_env 2) m1 w1)"

definition salam :: pystr where
  "salam = [1575, 1604, 1587, 1604, 1575, 1605, 32, 1593, 1604, 1610, 1603, 1605, 46]"

section \<open>Properties of the segmenter\<close>

subsection \<open>Trimming and sublists\<close>

lemma rstrip_append: 
  assumes "\<exists>x\<in>set b. \<not> is_space x" shows "rstrip (a @ b) = a @ rstrip b"
proof -
  from assms obtain x where "x \<in> set (rev b)" "\<not> is_space x" by auto
  then have "dropWhile is_space (rev b @ rev a) = dropWhile is_space (rev b) @ rev a"
    by (rule dropWhile_append1)
  then show ?thesis by (simp add: rstrip_def)
qed

lemma length_rstrip_le: "length (rstrip s) \<le> length s"
  unfolding rstrip_def by (metis length_dropWhile_le length_rev)

lemma lstrip_all_space: "\<forall>x\<in>set b. is_space x \<Longrightarrow> lstrip b = []"
  by (simp add: lstrip_def)

lemma length_strip_le_rstrip: "length (strip b) \<le> length (rstrip b)"
proof (cases "\<exists>x\<in>set (lstrip b). \<not> is_space x")
  case True
  have "b = takeWhile is_space b @ lstrip b" by (simp add: lstrip_def)
  then have "rstrip b = takeWhile is_space b @ rstrip (lstrip b)"
    using rstrip_append [OF True, of "takeWhile is_space b"] by simp
  then show ?thesis by (simp add: strip_def)
next
  case False
  then have "rstrip (lstrip b) = []" by (simp add: rstrip_def)
  then show ?thesis by (simp add: strip_def)
qed

lemma strip_suffix_le: "length (strip b) \<le> length (strip (a @ b))"
proof (cases "\<exists>x\<in>set b. \<not> is_space x")
  case nb: True
  show ?thesis
  proof (cases "\<exists>x\<in>set a. \<not> is_space x")
    case True
    then obtain x where "x \<in> set a" "\<not> is_space x" by auto
    then have "lstrip (a @ b) = lstrip a @ b"
      unfolding lstrip_def by (rule dropWhile_append1)
    then have "strip (a @ b) = lstrip a @ rstrip b"
      using rstrip_append [OF nb] by (simp add: strip_def)
    then show ?thesis using length_strip_le_rstrip [of b] by simp
  next
    case False
    then have "lstrip (a @ b) = lstrip b"
      unfolding lstrip_def by (simp add: dropWhile_append2)
    then show ?thesis by (simp add: strip_def)
  qed
next
  case False
  then have "strip b = []" by (simp add: strip_def lstrip_all_space rstrip_def)
  then show ?thesis by simp
qed

lemma strip_prefix_le: "length (strip a) \<le> length (strip (a @ b))"
proof (cases "\<exists>x\<in>set a. \<not> is_space x")
  case na: True
  then obtain x where x: "x \<in> set a" "\<not> is_space x" by auto
  then have l: "lstrip (a @ b) = lstrip a @ b"
    unfolding lstrip_def by (rule dropWhile_append1)
  show ?thesis
  proof (cases "\<exists>x\<in>set b. \<not> is_space x")
    case True
    have "strip (a @ b) = lstrip a @ rstrip b"
      using rstrip_append [OF True] l by (simp add: strip_def)
    moreover have "length (strip a) \<le> length (lstrip a)"
      using length_rstrip_le [of "lstrip a"] by (simp add: strip_def)
    ultimately show ?thesis by simp
  next
    case False
    then have "\<And>x. x \<in> set (rev b) \<Longrightarrow> is_space x" by simp
    then have "dropWhile is_space (rev b @ rev (lstrip a)) = dropWhile is_space (rev (lstrip a))"
      by (rule dropWhile_append2)
    then have "rstrip (lstrip a @ b) = rstrip (lstrip a)"
      by (simp add: rstrip_def)
    then show ?thesis using l by (simp add: strip_def)
  qed
next
  case False
  then have "strip a = []" by (simp add: strip_def lstrip_all_space rstrip_def)
  then show ?thesis by simp
qed

lemma scan_chars_no_ending:
  "\<forall>c\<in>set body. c \<notin> set arabic_endings \<Longrightarrow>
     scan_chars (body @ rest) sentences cur = scan_chars rest sentences (cur @ body)"
  by (induction body arbitrary: cur) simp_all

lemma scan_chars_append:
  "scan_chars (xs @ ys) sentences cur =
     (case scan_chars xs sentences cur of (s', c') \<Rightarrow> scan_chars ys s' c')"
  by (induction xs sentences cur rule: scan_chars.induct) (simp_all add: Let_def)

lemma scan_chars_ends:
  "xs \<noteq> [] \<Longrightarrow> last xs \<in> set arabic_endings \<Longrightarrow> snd (scan_chars xs sentences cur) = []"
proof (induction xs arbitrary: sentences cur)
  case Nil then show ?case by simp
next
  case (Cons c cs)
  show ?case
  proof (cases "cs = []")
    case True
    then show ?thesis using Cons.prems by (simp add: Let_def)
  next
    case False
    then have "last cs \<in> set arabic_endings" using Cons.prems by simp
    then show ?thesis using Cons.IH [OF False] by (simp add: Let_def)
  qed
qed

lemma scan_chars_bound:
  "(\<forall>s\<in>set (fst (scan_chars xs sentences cur)).
       s \<in> set sentences \<or> (5 < length s \<and> length s \<le> length (strip (cur @ xs))))
   \<and> length (strip (snd (scan_chars xs sentences cur))) \<le> length (strip (cur @ xs))"
proof (induction xs arbitrary: sentences cur)
  case Nil show ?case by simp
next
  case (Cons c cs)
  show ?case
  proof (cases "c \<in> set arabic_endings")
    case True
    have a: "length (strip cs) \<le> length (strip (cur @ c # cs))"
      using strip_suffix_le [of cs "cur @ [c]"] by simp
    have b: "length (strip (cur @ [c])) \<le> length (strip (cur @ c # cs))"
      using strip_prefix_le [of "cur @ [c]" cs] by simp
    show ?thesis
      using True a b
        Cons.IH [of "sentences @ [strip (cur @ [c])]" "[]"] Cons.IH [of sentences "[]"]
      by (auto simp add: Let_def)
  next
    case False
    then show ?thesis using Cons.IH [of sentences "cur @ [c]"] by (simp add: Let_def)
  qed
qed

lemma extract_unguarded:
  "extract_complete_sentences s =
     (if length (strip (snd (scan_chars s [] []))) > 10
      then fst (scan_chars s [] []) @ [strip (snd (scan_chars s [] []))]
      else fst (scan_chars s [] []))"
proof (cases "s = [] \<or> length (strip s) < 3")
  case True
  then have small: "length (strip s) < 3"
    by (auto simp: strip_def lstrip_def rstrip_def)
  have "x \<notin> set (fst (scan_chars s [] []))" for x
  proof
    assume "x \<in> set (fst (scan_chars s [] []))"
    then have "5 < length x \<and> length x \<le> length (strip s)"
      using scan_chars_bound [of s "[]" "[]"] by simp
    then show False using small by simp
  qed
  then have "fst (scan_chars s [] []) = []"
    by (cases "fst (scan_chars s [] [])") auto
  moreover have "length (strip (snd (scan_chars s [] []))) \<le> 10"
    using scan_chars_bound [of s "[]" "[]"] small by simp
  ultimately show ?thesis using True by (simp add: extract_complete_sentences_def)
next
  case False
  then show ?thesis by (simp add: extract_complete_sentences_def split: prod.splits)
qed

subsection \<open>C6: one terminated sentence\<close>

text \<open>
  C6. An input whose only terminal punctuation mark is its last character, and whose
  trimmed length exceeds the minimum sentence length of 5, is returned as exactly one
  element: the input trimmed of surrounding whitespace.
\<close>

theorem extract_terminated_sentence: 
  assumes "t \<in> set arabic_endings" and "\<forall>c\<in>set body. c \<notin> set arabic_endings"
    and "5 < length (strip (body @ [t]))"
  shows "extract_complete_sentences (body @ [t]) = [strip (body @ [t])]"
proof -
  have "scan_chars (body @ [t]) [] [] = scan_chars [t] [] body"
    using scan_chars_no_ending [OF assms(2), of "[t]" "[]" "[]"] by simp
  also have "\<dots> = ([strip (body @ [t])], [])"
    using assms(1,3) by (simp add: Let_def)
  finally have "scan_chars (body @ [t]) [] [] = ([strip (body @ [t])], [])" .
  moreover have "strip [] = []" by (simp add: strip_def lstrip_def rstrip_def)
  ultimately show ?thesis using assms(3) by (simp add: extract_complete_sentences_def)
qed

theorem extract_terminated_sentence_witness:
  "(1567::nat) \<in> set arabic_endings
   \<and> 5 < length (strip ([32, 1603, 1610, 1601, 32, 1581, 1575, 1604, 1603, 32] @ [1567]))
   \<and> extract_complete_sentences [32, 1603, 1610, 1601, 32, 1581, 1575, 1604, 1603, 32, 1567]
       = [[1603, 1610, 1601, 32, 1581, 1575, 1604, 1603, 32, 1567]]"
proof -
  have h1: "(1567::nat) \<in> set arabic_endings"
    by (simp add: arabic_endings_def)
  have h2: "\<forall>c\<in>set [32, 1603, 1610, 1601, 32, 1581, 1575, 1604, 1603, 32::nat]. c \<notin> set arabic_endings"
    by (simp add: arabic_endings_def)
  have s: "strip ([32, 1603, 1610, 1601, 32, 1581, 1575, 1604, 1603, 32] @ [1567])
             = [1603, 1610, 1601, 32, 1581, 1575, 1604, 1603, 32, 1567]"
    by (simp add: strip_def lstrip_def rstrip_def is_space_def)
  have h3: "5 < length (strip ([32, 1603, 1610, 1601, 32, 1581, 1575, 1604, 1603, 32] @ [1567]))"
    unfolding s by simp
  show ?thesis
    using h1 h3 extract_terminated_sentence [OF h1 h2 h3] s by simp
qed

subsection \<open>C7: trailing unterminated text\<close>

text \<open>
  C7. Let the input be \<open>pre @ trailing\<close>, where \<open>pre\<close> is empty or ends in a terminal
  punctuation mark and \<open>trailing\<close> holds none (so \<open>trailing\<close> is the text after the last
  terminator, or the whole input). When the trimmed length of \<open>trailing\<close> is at most 10
  it is dropped: the result is that of \<open>pre\<close> alone. When it exceeds 10, the trimmed
  \<open>trailing\<close> is the final element, after the sentences of \<open>pre\<close>.
\<close>

theorem extract_trailing_text:
  assumes "pre = [] \<or> last pre \<in> set arabic_endings"
    and "\<forall>c\<in>set trailing. c \<notin> set arabic_endings"
  shows "extract_complete_sentences (pre @ trailing) =
           (if 10 < length (strip trailing)
            then extract_complete_sentences pre @ [strip trailing]
            else extract_complete_sentences pre)"
proof -
  have e: "strip [] = []" by (simp add: strip_def lstrip_def rstrip_def)
  have cur: "snd (scan_chars pre [] []) = []"
  proof (cases "pre = []")
    case True then show ?thesis by simp
  next
    case False then show ?thesis using assms(1) scan_chars_ends [of pre "[]" "[]"] by simp
  qed
  then have p: "scan_chars pre [] [] = (fst (scan_chars pre [] []), [])"
    by (metis prod.collapse)
  have "scan_chars (pre @ trailing) [] [] = scan_chars trailing (fst (scan_chars pre [] [])) []"
    using cur by (cases "scan_chars pre [] []") (simp add: scan_chars_append)
  also have "\<dots> = (fst (scan_chars pre [] []), trailing)"
    using scan_chars_no_ending [OF assms(2), of "[]" "fst (scan_chars pre [] [])" "[]"] by simp
  finally have "scan_chars (pre @ trailing) [] [] = (fst (scan_chars pre [] []), trailing)" .
  then show ?thesis
    using cur e by (simp add: extract_unguarded)
qed

theorem extract_trailing_text_witness:
  "(ascii ''Hello world.'' = [] \<or> last (ascii ''Hello world.'') \<in> set arabic_endings)
   \<and> extract_complete_sentences (ascii ''Hello world.'' @ ascii '' and a long tail '')
        = [ascii ''Hello world.'', ascii ''and a long tail'']
   \<and> extract_complete_sentences (ascii ''Hello world.'' @ ascii '' short tail'')
        = [ascii ''Hello world.'']"
proof -
  have h1: "ascii ''Hello world.'' = [] \<or> last (ascii ''Hello world.'') \<in> set arabic_endings"
    by (simp add: ascii_def arabic_endings_def)
  have h2: "\<forall>c\<in>set (ascii '' and a long tail ''). c \<notin> set arabic_endings"
    by (simp add: ascii_def arabic_endings_def)
  have h3: "\<forall>c\<in>set (ascii '' short tail''). c \<notin> set arabic_endings"
    by (simp add: ascii_def arabic_endings_def)
  have s1: "strip (ascii '' and a long tail '') = ascii ''and a long tail''"
    by (simp add: ascii_def strip_def lstrip_def rstrip_def is_space_def)
  have s2: "strip (ascii '' short tail'') = ascii ''short tail''"
    by (simp add: ascii_def strip_def lstrip_def rstrip_def is_space_def)
  have l1: "length (ascii ''and a long tail'') = 15" by (simp add: ascii_def)
  have l2: "length (ascii ''short tail'') = 10" by (simp add: ascii_def)
  have p: "extract_complete_sentences (ascii ''Hello world.'') = [ascii ''Hello world.'']"
    by (simp add: extract_complete_sentences_def ascii_def strip_def lstrip_def rstrip_def
        is_space_def arabic_endings_def)
  show ?thesis
    using h1 extract_trailing_text [OF h1 h2] extract_trailing_text [OF h1 h3]
    unfolding s1 s2 l1 l2 p by simp
qed

section \<open>Properties of the translation service\<close>

lemma prepare_context_fields:
  "ts_room (fst (prepare_context ts text)) = ts_room ts"
  "target_language (fst (prepare_context ts text)) = target_language ts"
  "source_language (fst (prepare_context ts text)) = source_language ts"
  "use_context (fst (prepare_context ts text)) = use_context ts"
  "max_context_messages (fst (prepare_context ts text)) = max_context_messages ts"
  "system_prompt (fst (prepare_context ts text)) = system_prompt ts"
  by (simp_all add: prepare_context_def Let_def)

lemma prepare_context_reset:
  assumes "use_context ts" and "message_count ts + 1 > max_context_messages ts"
  shows "prepare_context ts input =
           (ts\<lparr>ts_context := [\<lparr>role = System, content = system_prompt ts\<rparr>], message_count := 0\<rparr>,
            [\<lparr>role = System, content = system_prompt ts\<rparr>])"
  using assms by (simp add: prepare_context_def Let_def add_message_def)

lemma translate_text_service:
  "fst (snd (translate_text e ts text trk w)) = fst (prepare_context ts text)"
  by (simp add: translate_text_def translate_text_try_def Let_def split: prod.splits sum.splits)

lemma translate_text_failure:
  assumes "llm_chat e (length (llm_requests w)) (snd (prepare_context ts text)) = Inl err"
  shows "translate_text e ts text trk w =
           (Inr text, fst (prepare_context ts text),
            w\<lparr>llm_requests := llm_requests w @ [snd (prepare_context ts text)]\<rparr>)"
  using assms
  by (cases "prepare_context ts text")
     (simp add: translate_text_def translate_text_try_def Let_def)

lemma translate_text_success:
  assumes "llm_chat e (length (llm_requests w)) (snd (prepare_context ts text)) = Inr chunks"
  shows "translate_text e ts text trk w =
           (Inr (strip (collect chunks)), fst (prepare_context ts text),
            publish_transcription e (fst (prepare_context ts text)) (strip (collect chunks)) trk
              (w\<lparr>llm_requests := llm_requests w @ [snd (prepare_context ts text)]\<rparr>))"
  using assms
  by (cases "prepare_context ts text")
     (simp add: translate_text_def translate_text_try_def Let_def)

lemmas example_defs = example_env_def failing_llm_env_def faulty_db_env_def example_room_def
  example_room_data_def example_session_row_def example_info_def example_service_def
  example_manager_def empty_world_def example_world_def fresh_manager_def

subsection \<open>C3: passthrough when the completion fails\<close>

text \<open>
  C3. For every input text, if the completion collaborator raises at the request or
  while its stream is read, \<open>translate_text\<close> returns (\<open>Inr\<close>: no exception reaches
  the caller) the original input text, unchanged.
\<close>

theorem translate_text_passthrough:
  assumes "llm_chat e (length (llm_requests w)) (snd (prepare_context ts input)) = Inl err"
  shows "fst (translate_text e ts input trk w) = Inr input"
  using translate_text_failure [OF assms] by simp

theorem translate_text_passthrough_witness:
  "fst (translate_text failing_llm_env example_service salam None empty_world) = Inr salam"
  using translate_text_passthrough [where e = failing_llm_env and w = empty_world
      and ts = example_service and input = salam and err = CompletionError and trk = None]
  by (simp add: example_defs)

subsection \<open>C2: what a call publishes\<close>

text \<open>
  C2 as stated fails: when the completion fails, the call returns the input text and
  publishes nothing, since the publish step is inside the \<open>try\<close> block, after the
  stream is read. Here the completion model always raises; the call returns the input
  and the room has received no caption.
\<close>

theorem translate_text_passthrough_unpublished:
  "fst (translate_text failing_llm_env example_service salam None empty_world) = Inr salam
   \<and> published (snd (snd (translate_text failing_llm_env example_service salam None
        empty_world))) = []
   \<and> publish_calls (snd (snd (translate_text failing_llm_env example_service salam None
        empty_world))) = 0"
  by (simp add: translate_text_def translate_text_try_def prepare_context_def
      TranslationService_init_def add_message_def Let_def example_defs)

text \<open>
  C2, amended. A call whose completion succeeds returns the trimmed concatenation of
  the stream's contents and makes exactly one publish call; unless that call fails
  (which is swallowed), the room receives exactly one caption: attributed to the local
  participant and to the given track (the empty track id when there is no track), with
  one segment carrying the translated text, marked final, with start and end time
  zero, in the target language. A call whose completion fails returns the input text,
  makes no publish call and publishes nothing.
\<close>

theorem translate_text_publishes:
  "(case llm_chat e (length (llm_requests w)) (snd (prepare_context ts input)) of
      Inl err \<Rightarrow>
        fst (translate_text e ts input trk w) = Inr input
        \<and> published (snd (snd (translate_text e ts input trk w))) = published w
        \<and> publish_calls (snd (snd (translate_text e ts input trk w))) = publish_calls w
    | Inr chunks \<Rightarrow>
        fst (translate_text e ts input trk w) = Inr (strip (collect chunks))
        \<and> publish_calls (snd (snd (translate_text e ts input trk w))) = publish_calls w + 1
        \<and> published (snd (snd (translate_text e ts input trk w))) =
            (if publish_fault e (publish_calls w) then published w
             else published w @
               [\<lparr>participant_identity = local_participant_identity (ts_room ts),
                 track_sid = (case trk of Some t \<Rightarrow> sid t | None \<Rightarrow> []),
                 segments = [\<lparr>seg_id = ascii ''SG_'' @ shortuuid e (publish_calls w),
                              seg_text = strip (collect chunks), start_time = 0, end_time = 0,
                              language = target_language ts, final = True\<rparr>]\<rparr>]))"
proof (cases "llm_chat e (length (llm_requests w)) (snd (prepare_context ts input))")
  case (Inl err)
  show ?thesis using translate_text_failure [OF Inl] Inl by simp
next
  case (Inr chunks)
  show ?thesis using translate_text_success [OF Inr] Inr
    by (simp add: publish_transcription_def Let_def prepare_context_fields)
qed

theorem translate_text_publishes_witness:
  "fst (translate_text example_env example_service salam (Some \<lparr>sid = ascii ''TR_1''\<rparr>) empty_world)
     = Inr (ascii ''Peace be upon you.'')
   \<and> published (snd (snd (translate_text example_env example_service salam
        (Some \<lparr>sid = ascii ''TR_1''\<rparr>) empty_world)))
     = [\<lparr>participant_identity = ascii ''agent'', track_sid = ascii ''TR_1'',
         segments = [\<lparr>seg_id = ascii ''SG_a'', seg_text = ascii ''Peace be upon you.'',
                      start_time = 0, end_time = 0, language = ascii ''en'', final = True\<rparr>]\<rparr>]"
proof -
  have s: "strip (collect [Some (ascii '' Peace be''), None, Some (ascii '' upon you. '')])
             = ascii ''Peace be upon you.''"
    by (simp add: collect_def ascii_def strip_def lstrip_def rstrip_def is_space_def)
  show ?thesis
    using translate_text_publishes [where e = example_env and w = empty_world
        and ts = example_service and input = salam and trk = "Some \<lparr>sid = ascii ''TR_1''\<rparr>"] s
    by (simp add: example_defs TranslationService_init_def ascii_def)
qed

subsection \<open>C9: the reset discards the triggering message\<close>

text \<open>
  C9. In rolling-context mode, when appending the input takes the message count past
  the ceiling, the reset comes after the append and before the request: the service is
  left with the system message only and a zero counter, the completion request of that
  same call is made against the system message alone, and the user message carrying
  the input is not in that request.
\<close>

theorem reset_discards_triggering_message:
  assumes "use_context ts" and "message_count ts + 1 > max_context_messages ts"
  shows "fst (snd (translate_text e ts input trk w))
           = ts\<lparr>ts_context := [\<lparr>role = System, content = system_prompt ts\<rparr>], message_count := 0\<rparr>
         \<and> llm_requests (snd (snd (translate_text e ts input trk w)))
             = llm_requests w @ [[\<lparr>role = System, content = system_prompt ts\<rparr>]]
         \<and> \<lparr>role = User, content = input\<rparr>
             \<notin> set (last (llm_requests (snd (snd (translate_text e ts input trk w)))))"
proof -
  note p = prepare_context_reset [OF assms, of input]
  have r: "llm_requests (snd (snd (translate_text e ts input trk w)))
             = llm_requests w @ [[\<lparr>role = System, content = system_prompt ts\<rparr>]]"
  proof (cases "llm_chat e (length (llm_requests w)) (snd (prepare_context ts input))")
    case (Inl err)
    show ?thesis using translate_text_failure [OF Inl] p by simp
  next
    case (Inr chunks)
    show ?thesis using translate_text_success [OF Inr] p
      by (simp add: publish_transcription_def Let_def)
  qed
  show ?thesis using p r by (simp add: translate_text_service)
qed

theorem reset_discards_triggering_message_witness:
  "llm_requests (snd (snd (translate_text example_env (example_service\<lparr>message_count := 9\<rparr>)
      salam None empty_world)))
     = [[\<lparr>role = System, content = make_system_prompt (ascii ''ar'') (ascii ''en'')\<rparr>]]"
  using reset_discards_triggering_message [where ts = "example_service\<lparr>message_count := 9\<rparr>"
      and input = salam and e = example_env and trk = None and w = empty_world]
  by (simp add: example_defs TranslationService_init_def)

subsection \<open>C4: the bounded context window\<close>

lemma translate_all_snoc:
  "translate_all e ts (xs @ [(text, trk)]) w =
     (case translate_all e ts xs w of
        (ts1, w1) \<Rightarrow> (fst (snd (translate_text e ts1 text trk w1)),
                      snd (snd (translate_text e ts1 text trk w1))))"
  by (induction xs arbitrary: ts w) (auto split: prod.splits)

lemma window_step:
  fixes xs :: "'a list"
  assumes "length xs mod 10 \<noteq> 9"
  shows "Suc (length xs) mod 10 = Suc (length xs mod 10)"
    and "drop (Suc (length xs) - Suc (length xs) mod 10) (xs @ [x])
           = drop (length xs - length xs mod 10) xs @ [x]"
proof -
  show a: "Suc (length xs) mod 10 = Suc (length xs mod 10)"
    using assms by (simp add: mod_Suc)
  have "length xs mod 10 \<le> length xs" by simp
  then show "drop (Suc (length xs) - Suc (length xs) mod 10) (xs @ [x])
           = drop (length xs - length xs mod 10) xs @ [x]"
    unfolding a by simp
qed

lemma window_reset:
  fixes xs :: "'a list"
  assumes "length xs mod 10 = 9"
  shows "Suc (length xs) mod 10 = 0"
  using assms by (simp add: mod_Suc)

lemma translate_all_window:
  "use_context (fst (translate_all e (TranslationService_init rm target source) inputs w))
   \<and> max_context_messages (fst (translate_all e (TranslationService_init rm target source) inputs w)) = 9
   \<and> system_prompt (fst (translate_all e (TranslationService_init rm target source) inputs w))
        = make_system_prompt source target
   \<and> message_count (fst (translate_all e (TranslationService_init rm target source) inputs w))
        = int (length inputs mod 10)
   \<and> ts_context (fst (translate_all e (TranslationService_init rm target source) inputs w))
        = \<lparr>role = System, content = make_system_prompt source target\<rparr>
          # map user_message (drop (length inputs - length inputs mod 10) inputs)"
proof (induction inputs rule: rev_induct)
  case Nil
  show ?case by (simp add: TranslationService_init_def add_message_def)
next
  case (snoc x xs)
  obtain tx trk where x: "x = (tx, trk)" by (cases x)
  obtain ts1 w1 where t: "translate_all e (TranslationService_init rm target source) xs w = (ts1, w1)"
    by (cases "translate_all e (TranslationService_init rm target source) xs w")
  have ih: "use_context ts1" "max_context_messages ts1 = 9"
    "system_prompt ts1 = make_system_prompt source target"
    "message_count ts1 = int (length xs mod 10)"
    "ts_context ts1 = \<lparr>role = System, content = make_system_prompt source target\<rparr>
          # map user_message (drop (length xs - length xs mod 10) xs)"
    using snoc.IH t by simp_all
  have r: "fst (translate_all e (TranslationService_init rm target source) (xs @ [x]) w)
             = fst (prepare_context ts1 tx)"
    using t x by (simp add: translate_all_snoc translate_text_service)
  show ?case
  proof (cases "length xs mod 10 = 9")
    case True
    have "prepare_context ts1 tx =
            (ts1\<lparr>ts_context := [\<lparr>role = System, content = system_prompt ts1\<rparr>], message_count := 0\<rparr>,
             [\<lparr>role = System, content = system_prompt ts1\<rparr>])"
      using ih True by (simp add: prepare_context_def Let_def add_message_def)
    then show ?thesis
      unfolding r using ih window_reset [OF True] by simp
  next
    case False
    have "length xs mod 10 < 10" by simp
    then have lt: "length xs mod 10 < 9" using False by linarith
    have "prepare_context ts1 tx =
            (ts1\<lparr>ts_context := ts_context ts1 @ [\<lparr>role = User, content = tx\<rparr>],
                 message_count := message_count ts1 + 1\<rparr>,
             ts_context ts1 @ [\<lparr>role = User, content = tx\<rparr>])"
      using ih lt by (simp add: prepare_context_def Let_def add_message_def)
    then show ?thesis
      unfolding r using ih window_step(1) [OF False] window_step(2) [OF False, of x] x
        by (simp add: user_message_def)
  qed
qed

text \<open>
  C4. After any number of successive calls on one service, started by
  \<open>TranslationService.__init__\<close>, the context is the fixed system message followed by
  the user messages of the calls since the last reset, of which there are
  \<open>n mod 10\<close> after \<open>n\<close> calls: at most 9 messages that are not the system message.
  A call whose append takes the counter past the ceiling leaves exactly the system
  message and a zero counter; so after exactly 10 calls the context is the system
  message only.
\<close>

theorem context_window_bounded:
  "ts_context (fst (translate_all e (TranslationService_init rm target source) inputs w))
     = \<lparr>role = System, content = make_system_prompt source target\<rparr>
       # map user_message (drop (length inputs - length inputs mod 10) inputs)
   \<and> message_count (fst (translate_all e (TranslationService_init rm target source) inputs w))
       = int (length inputs mod 10)
   \<and> length (filter (\<lambda>m. role m \<noteq> System)
        (ts_context (fst (translate_all e (TranslationService_init rm target source) inputs w)))) \<le> 9
   \<and> (use_context ts \<and> message_count ts + 1 > max_context_messages ts \<longrightarrow>
        ts_context (fst (snd (translate_text e ts input trk w)))
          = [\<lparr>role = System, content = system_prompt ts\<rparr>]
        \<and> message_count (fst (snd (translate_text e ts input trk w))) = 0)
   \<and> (length inputs = 10 \<longrightarrow>
        ts_context (fst (translate_all e (TranslationService_init rm target source) inputs w))
          = [\<lparr>role = System, content = make_system_prompt source target\<rparr>]
        \<and> message_count (fst (translate_all e (TranslationService_init rm target source) inputs w)) = 0)"
proof -
  let ?ts = "fst (translate_all e (TranslationService_init rm target source) inputs w)"
  have c: "ts_context ?ts = \<lparr>role = System, content = make_system_prompt source target\<rparr>
       # map user_message (drop (length inputs - length inputs mod 10) inputs)"
    and n: "message_count ?ts = int (length inputs mod 10)"
    using translate_all_window [of e rm target source inputs w] by simp_all
  have "length (filter (\<lambda>m. role m \<noteq> System) (ts_context ?ts))
          \<le> length (drop (length inputs - length inputs mod 10) inputs)"
    unfolding c using length_filter_le [of "\<lambda>m. role m \<noteq> System"
        "map user_message (drop (length inputs - length inputs mod 10) inputs)"] by simp
  also have "\<dots> \<le> length inputs mod 10" by simp
  also have "\<dots> \<le> 9" using mod_less_divisor [of 10 "length inputs"] by linarith
  finally have b: "length (filter (\<lambda>m. role m \<noteq> System) (ts_context ?ts)) \<le> 9" .
  have s: "use_context ts \<and> message_count ts + 1 > max_context_messages ts \<longrightarrow>
        ts_context (fst (snd (translate_text e ts input trk w)))
          = [\<lparr>role = System, content = system_prompt ts\<rparr>]
        \<and> message_count (fst (snd (translate_text e ts input trk w))) = 0"
    using prepare_context_reset [of ts input] by (simp add: translate_text_service)
  show ?thesis using c n b s by simp
qed

theorem context_window_bounded_witness:
  "ts_context (fst (translate_all failing_llm_env example_service
       (replicate 10 (salam, None)) empty_world))
     = [\<lparr>role = System, content = make_system_prompt (ascii ''ar'') (ascii ''en'')\<rparr>]
   \<and> message_count (fst (translate_all failing_llm_env example_service
       (replicate 10 (salam, None)) empty_world)) = 0
   \<and> ts_context (fst (snd (translate_text failing_llm_env
        (example_service\<lparr>message_count := 9\<rparr>) salam None empty_world)))
     = [\<lparr>role = System, content = make_system_prompt (ascii ''ar'') (ascii ''en'')\<rparr>]"
  using context_window_bounded [where e = failing_llm_env and rm = example_room
      and target = "ascii ''en''" and source = "ascii ''ar''"
      and inputs = "replicate 10 (salam, None)" and w = empty_world
      and ts = "example_service\<lparr>message_count := 9\<rparr>" and input = salam and trk = None]
  by (simp add: example_service_def TranslationService_init_def)

section \<open>Properties of the session coordinator\<close>

subsection \<open>The datastore lookups\<close>

lemmas service_defs = execute_def inserted_def get_active_session_def is_active_for_def
  SupabaseService_start_session_def SupabaseService_stop_session_def mark_completed_def
  is_session_logging_enabled_def remove_session_info_def set_session_info_def

lemma get_active_session_fault:
  "db_fault e (length (db_log w)) \<Longrightarrow>
     get_active_session e room_id w = (None, w\<lparr>db_log := db_log w @ [SelectActiveSession room_id]\<rparr>)"
  by (simp add: get_active_session_def execute_def)

lemma get_active_session_none:
  "filter (is_active_for room_id) (room_sessions w) = [] \<Longrightarrow>
     get_active_session e room_id w = (None, w\<lparr>db_log := db_log w @ [SelectActiveSession room_id]\<rparr>)"
  by (simp add: get_active_session_def execute_def split: bool.splits)


lemma get_active_session_found:
  "\<not> db_fault e (length (db_log w)) \<Longrightarrow>
   filter (is_active_for room_id) (room_sessions w) = r # rest \<Longrightarrow>
     get_active_session e room_id w = (Some r, w\<lparr>db_log := db_log w @ [SelectActiveSession room_id]\<rparr>)"
  by (simp add: get_active_session_def execute_def)

lemma handle_transcription_not_enabled:
  assumes "translation_service m = Some ts" and "active_session m = Some s"
    and "room_data m = Some rd"
    and "is_session_logging_enabled e (rd_id rd) w = (False, w1)"
  shows "handle_transcription e m text trk w = (Inr (), m, w1)"
  using assms by (simp add: handle_transcription_def)

subsection \<open>C1: logging disabled\<close>

text \<open>
  C1 as stated fails: the check of the logging flag comes before the translation, and
  a disabled flag ends the call there. Here the coordinator is initialized, the
  session row of its room is active with logging disabled, and the call leaves no
  completion request and no published caption.
\<close>

theorem handle_transcription_disabled_no_caption:
  "translation_service example_manager = Some example_service
   \<and> map logging_enabled (room_sessions (example_world False)) = [False]
   \<and> llm_requests (snd (snd (handle_transcription example_env example_manager salam None
        (example_world False)))) = []
   \<and> published (snd (snd (handle_transcription example_env example_manager salam None
        (example_world False)))) = []"
  by (simp add: handle_transcription_def example_defs service_defs)

text \<open>
  C1, amended. On an initialized coordinator whose room's active session row has the
  logging flag false, \<open>handle_transcription\<close> returns after the flag lookup: the
  coordinator is unchanged and the only effect is that one lookup, so there is no
  translation, no caption, no transcript insert, no count increment and no
  notification.
\<close>

theorem handle_transcription_logging_disabled:
  assumes "translation_service m = Some ts" and "active_session m = Some s"
    and "room_data m = Some rd"
    and "filter (is_active_for (rd_id rd)) (room_sessions w) = r # rest"
    and "\<not> logging_enabled r"
  shows "handle_transcription e m input trk w
           = (Inr (), m, w\<lparr>db_log := db_log w @ [SelectActiveSession (rd_id rd)]\<rparr>)"
proof -
  have "is_session_logging_enabled e (rd_id rd) w
          = (False, w\<lparr>db_log := db_log w @ [SelectActiveSession (rd_id rd)]\<rparr>)"
  proof (cases "db_fault e (length (db_log w))")
    case True
    then show ?thesis by (simp add: is_session_logging_enabled_def get_active_session_fault)
  next
    case False
    then show ?thesis using assms(4,5)
      by (simp add: is_session_logging_enabled_def get_active_session_found)
  qed
  then show ?thesis by (rule handle_transcription_not_enabled [OF assms(1-3)])
qed

theorem handle_transcription_logging_disabled_witness:
  "handle_transcription example_env example_manager salam None (example_world False)
     = (Inr (), example_manager,
        (example_world False)\<lparr>db_log := [SelectActiveSession 1]\<rparr>)"
  using handle_transcription_logging_disabled [where m = example_manager
      and ts = example_service and s = example_info
      and rd = example_room_data and w = "example_world False" and r = "example_session_row False"
      and rest = "[]" and e = example_env and input = salam and trk = None]
  by (simp add: example_defs is_active_for_def)

subsection \<open>C10: no active row, or a failed lookup\<close>

text \<open>
  C10. When the datastore holds no active session row for the room, or the lookup
  raises, \<open>is_session_logging_enabled\<close> returns False; consequently
  \<open>handle_transcription\<close> on an initialized coordinator of that room returns after the
  lookup, with no translation, caption, persistence or notification, whatever
  session descriptor is cached in the process.
\<close>

theorem logging_check_defaults_false:
  assumes "db_fault e (length (db_log w)) \<or> filter (is_active_for room_id) (room_sessions w) = []"
  shows "fst (is_session_logging_enabled e room_id w) = False
         \<and> (translation_service m = Some ts \<and> active_session m = Some s
              \<and> room_data m = Some rd \<and> rd_id rd = room_id \<longrightarrow>
            handle_transcription e m input trk w
              = (Inr (), m, w\<lparr>db_log := db_log w @ [SelectActiveSession room_id]\<rparr>))"
proof -
  have g: "get_active_session e room_id w
             = (None, w\<lparr>db_log := db_log w @ [SelectActiveSession room_id]\<rparr>)"
    using assms get_active_session_fault get_active_session_none by blast
  then have i: "is_session_logging_enabled e room_id w
             = (False, w\<lparr>db_log := db_log w @ [SelectActiveSession room_id]\<rparr>)"
    by (simp add: is_session_logging_enabled_def)
  show ?thesis using i handle_transcription_not_enabled [of m ts s rd e w] by auto
qed

theorem logging_check_defaults_false_witness:
  "fst (is_session_logging_enabled example_env 1
      (empty_world\<lparr>active_sessions := [ascii ''masjid-1'' \<mapsto> example_info]\<rparr>)) = False
   \<and> fst (is_session_logging_enabled (faulty_db_env 0) 1 (example_world True)) = False
   \<and> handle_transcription (faulty_db_env 0) example_manager salam None (example_world True)
       = (Inr (), example_manager, (example_world True)\<lparr>db_log := [SelectActiveSession 1]\<rparr>)
   \<and> handle_transcription example_env example_manager salam None
        (empty_world\<lparr>active_sessions := [ascii ''masjid-1'' \<mapsto> example_info]\<rparr>)
       = (Inr (), example_manager,
          empty_world\<lparr>active_sessions := [ascii ''masjid-1'' \<mapsto> example_info],
                       db_log := [SelectActiveSession 1]\<rparr>)"
  using logging_check_defaults_false [where e = "faulty_db_env 0" and w = "example_world True"
      and room_id = 1 and m = example_manager and ts = example_service and s = example_info
      and rd = example_room_data and input = salam and trk = None]
    logging_check_defaults_false [where e = example_env
      and w = "empty_world\<lparr>active_sessions := [ascii ''masjid-1'' \<mapsto> example_info]\<rparr>"
      and room_id = 1 and m = example_manager and ts = example_service and s = example_info
      and rd = example_room_data and input = salam and trk = None]
  by (simp add: example_defs)

subsection \<open>C5: starting a session twice\<close>









subsection \<open>C8: stopping a session\<close>

lemma stop_session_found:
  assumes "\<not> db_fault e (length (db_log w))" and "\<not> db_fault e (Suc (length (db_log w)))"
    and "filter (is_active_for room_id) (room_sessions w) = r # rest"
  shows "room_sessions (snd (SupabaseService_stop_session e room_id w))
           = map (mark_completed (sess_id r)) (room_sessions w)"
  using assms
  by (simp add: SupabaseService_stop_session_def get_active_session_found execute_def)

lemma stop_session_unanswered:
  assumes "db_fault e (length (db_log w)) \<or> filter (is_active_for room_id) (room_sessions w) = []
           \<or> db_fault e (Suc (length (db_log w)))"
  shows "room_sessions (snd (SupabaseService_stop_session e room_id w)) = room_sessions w"
  using assms
  by (auto simp add: SupabaseService_stop_session_def get_active_session_def execute_def
      split: bool.splits list.splits)

lemma mark_completed_status:
  assumes "x \<in> set (map (mark_completed k) rows)" and "sess_id x = k"
  shows "status x = Completed"
proof -
  from assms(1) obtain y where y: "x = mark_completed k y" by (auto simp only: set_map)
  show ?thesis
  proof (cases "sess_id y = k")
    case True
    then show ?thesis using y by (simp add: mark_completed_def)
  next
    case False
    then have "x = y" using y by (simp add: mark_completed_def)
    then show ?thesis using False assms(2) by simp
  qed
qed

text \<open>
  C8 as stated fails in its second half. The coordinator holds the descriptor of the
  room's active session; the update that marks it completed (the second datastore
  call) raises, which \<open>SupabaseService.stop_session\<close> swallows: the session stays
  active, and the cache entry is evicted all the same.
\<close>

theorem stop_session_failed_update_stays_active:
  "active_session example_manager = Some example_info
   \<and> map sess_id (room_sessions (example_world True)) = [si_id example_info]
   \<and> map status (room_sessions (snd (snd (RoomSessionManager_stop_session (faulty_db_env 1)
        example_manager (example_world True))))) = [Active]
   \<and> active_sessions (snd (snd (RoomSessionManager_stop_session (faulty_db_env 1)
        example_manager (example_world True)))) (ascii ''masjid-1'') = None"
  by (simp add: RoomSessionManager_stop_session_def example_defs service_defs)

text \<open>
  C8, amended. When the coordinator holds no session descriptor (or no room data),
  \<open>stop_session\<close> returns without raising and changes nothing: no datastore call is
  made. When it holds both, the call returns without raising and the cache entry keyed
  by the room name is gone afterwards, whatever the datastore does. The session table
  changes only when the lookup and the update are both answered and the lookup finds
  an active session of the room: then the row that the lookup returns, the first
  active one of the room, is marked completed, and when that row carries the
  descriptor's id, every row with the descriptor's id is completed afterwards. When
  the lookup or the update raises, or the room has no active row, no row changes.
\<close>

theorem stop_session_safe:
  "(room_data m = None \<or> active_session m = None \<longrightarrow>
      RoomSessionManager_stop_session e m w = (Inr (), m, w))
   \<and> (room_data m = Some rd \<and> active_session m = Some s \<longrightarrow>
        fst (RoomSessionManager_stop_session e m w) = Inr ()
      \<and> active_sessions (snd (snd (RoomSessionManager_stop_session e m w)))
           (room_name (mgr_room m)) = None
      \<and> (db_fault e (length (db_log w)) \<or> filter (is_active_for (rd_id rd)) (room_sessions w) = []
           \<or> db_fault e (Suc (length (db_log w))) \<longrightarrow>
          room_sessions (snd (snd (RoomSessionManager_stop_session e m w))) = room_sessions w)
      \<and> (\<not> db_fault e (length (db_log w)) \<and> \<not> db_fault e (Suc (length (db_log w)))
           \<and> filter (is_active_for (rd_id rd)) (room_sessions w) = r # rest \<longrightarrow>
          room_sessions (snd (snd (RoomSessionManager_stop_session e m w)))
            = map (mark_completed (sess_id r)) (room_sessions w)
        \<and> (sess_id r = si_id s \<longrightarrow>
             (\<forall>x\<in>set (room_sessions (snd (snd (RoomSessionManager_stop_session e m w)))).
                sess_id x = si_id s \<longrightarrow> status x = Completed))))"
proof -
  have a: "room_data m = None \<or> active_session m = None \<Longrightarrow>
      RoomSessionManager_stop_session e m w = (Inr (), m, w)"
    by (auto simp add: RoomSessionManager_stop_session_def split: option.splits)
  have b: "RoomSessionManager_stop_session e m w
        = (Inr (), m, remove_session_info (room_name (mgr_room m))
             (snd (SupabaseService_stop_session e (rd_id rd) w)))"
    if "room_data m = Some rd" "active_session m = Some s"
    using that by (simp add: RoomSessionManager_stop_session_def split: prod.splits)
  have c: "active_sessions (remove_session_info n w') n = None" for n w'
    by (auto simp add: remove_session_info_def)
  have d: "room_sessions (remove_session_info n w') = room_sessions w'" for n w'
    by (simp add: remove_session_info_def)
  have f: "room_sessions (snd (SupabaseService_stop_session e (rd_id rd) w))
             = map (mark_completed (sess_id r)) (room_sessions w)
           \<and> (sess_id r = si_id s \<longrightarrow>
                (\<forall>x\<in>set (room_sessions (snd (SupabaseService_stop_session e (rd_id rd) w))).
                   sess_id x = si_id s \<longrightarrow> status x = Completed))"
    if "\<not> db_fault e (length (db_log w))" "\<not> db_fault e (Suc (length (db_log w)))"
      "filter (is_active_for (rd_id rd)) (room_sessions w) = r # rest"
    using stop_session_found [OF that] mark_completed_status [of _ "sess_id r" "room_sessions w"]
    by auto
  have u: "room_sessions (snd (SupabaseService_stop_session e (rd_id rd) w)) = room_sessions w"
    if "db_fault e (length (db_log w)) \<or> filter (is_active_for (rd_id rd)) (room_sessions w) = []
           \<or> db_fault e (Suc (length (db_log w)))"
    using stop_session_unanswered [OF that] .
  show ?thesis
  proof (intro conjI impI)
    assume "room_data m = None \<or> active_session m = None"
    then show "RoomSessionManager_stop_session e m w = (Inr (), m, w)" by (rule a)
  next
    assume h: "room_data m = Some rd \<and> active_session m = Some s"
    show "fst (RoomSessionManager_stop_session e m w) = Inr ()" using b h by simp
  next
    assume h: "room_data m = Some rd \<and> active_session m = Some s"
    show "active_sessions (snd (snd (RoomSessionManager_stop_session e m w)))
           (room_name (mgr_room m)) = None" using b c h by simp
  next
    assume h: "room_data m = Some rd \<and> active_session m = Some s"
      and g: "db_fault e (length (db_log w)) \<or> filter (is_active_for (rd_id rd)) (room_sessions w) = []
           \<or> db_fault e (Suc (length (db_log w)))"
    show "room_sessions (snd (snd (RoomSessionManager_stop_session e m w))) = room_sessions w"
      using b d h u [OF g] by simp
  next
    assume h: "room_data m = Some rd \<and> active_session m = Some s"
      and g: "\<not> db_fault e (length (db_log w)) \<and> \<not> db_fault e (Suc (length (db_log w)))
           \<and> filter (is_active_for (rd_id rd)) (room_sessions w) = r # rest"
    show "room_sessions (snd (snd (RoomSessionManager_stop_session e m w)))
            = map (mark_completed (sess_id r)) (room_sessions w)"
      using b d h f g by simp
  next
    assume h: "room_data m = Some rd \<and> active_session m = Some s"
      and g: "\<not> db_fault e (length (db_log w)) \<and> \<not> db_fault e (Suc (length (db_log w)))
           \<and> filter (is_active_for (rd_id rd)) (room_sessions w) = r # rest"
      and i: "sess_id r = si_id s"
    have "\<forall>x\<in>set (room_sessions (snd (SupabaseService_stop_session e (rd_id rd) w))).
            sess_id x = si_id s \<longrightarrow> status x = Completed"
      using f g i by blast
    then show "\<forall>x\<in>set (room_sessions (snd (snd (RoomSessionManager_stop_session e m w)))).
                sess_id x = si_id s \<longrightarrow> status x = Completed"
      using b d h by simp
  qed
qed

theorem stop_session_safe_witness:
  "RoomSessionManager_stop_session example_env fresh_manager (example_world True)
     = (Inr (), fresh_manager, example_world True)
   \<and> fst (RoomSessionManager_stop_session example_env example_manager (example_world True))
       = Inr ()
   \<and> active_sessions (snd (snd (RoomSessionManager_stop_session example_env example_manager
        (example_world True)))) (ascii ''masjid-1'') = None
   \<and> map status (room_sessions (snd (snd (RoomSessionManager_stop_session example_env
        example_manager (example_world True))))) = [Completed]
   \<and> room_sessions (snd (snd (RoomSessionManager_stop_session (faulty_db_env 0)
        example_manager (example_world True)))) = room_sessions (example_world True)"
  using stop_session_safe [where m = fresh_manager
        and e = example_env and w = "example_world True" and rd = example_room_data
        and s = example_info and r = "example_session_row True" and rest = "[]"]
    stop_session_safe [where m = example_manager and e = example_env
        and w = "example_world True" and rd = example_room_data and s = example_info
        and r = "example_session_row True" and rest = "[]"]
    stop_session_safe [where m = example_manager and e = "faulty_db_env 0"
        and w = "example_world True" and rd = example_room_data and s = example_info
        and r = "example_session_row True" and rest = "[]"]
  by (simp add: example_defs is_active_for_def mark_completed_def)

text \<open>
  The row marked is the one the lookup returns, not the one the descriptor names.
  After the two \<open>start_session\<close> calls of the C5 run the room has two active rows and
  the coordinator holds the id of the second; \<open>stop_session\<close> completes the first.
\<close>

lemma stop_session_marks_looked_up_row:
  "active_session (fst started_twice)
     = Some \<lparr>si_id = ascii ''session-3'', si_room_id = 1, si_mosque_id = 7\<rparr>
   \<and> map (\<lambda>r. (sess_id r, status r))
        (room_sessions (snd (snd (RoomSessionManager_stop_session (faulty_db_env 2)
           (fst started_twice) (snd started_twice)))))
     = [(ascii ''session-1'', Completed), (ascii ''session-3'', Active)]"
  by (simp add: started_twice_def RoomSessionManager_start_session_def
      RoomSessionManager_stop_session_def example_defs service_defs Let_def ascii_def)

end
